theory Spec2Isabelle
  imports Complex_Main
begin

section \<open>Numbers, errors and Python containers\<close>

text \<open>
  The script computes with Python floats (IEEE doubles). Two readings of its arithmetic
  are used.

  In the exact reading a float is a \<open>real\<close>, every operation is the exact one,
  \<open>math.cos\<close>, \<open>np.cos\<close>, \<open>math.sin\<close> and \<open>np.sin\<close> are \<open>cos\<close> and \<open>sin\<close>, and \<open>np.pi\<close>
  is \<open>pi\<close>. The control flow, the list operations, the exceptions and the comparisons of
  the script are modelled in this reading, and it carries the statements that do not
  depend on how a result is rounded.

  In the double reading (section "Double arithmetic", names starting with \<open>fl_\<close>) the
  result of every \<open>+\<close>, \<open>-\<close>, \<open>*\<close>, \<open>/\<close> and \<open>%\<close> is rounded to the nearest double, as
  IEEE 754 prescribes, and the cosine and sine of the library are parameters, since
  neither the script nor IEEE 754 fixes their values. It carries the statements about the
  cue times and about periodicity, which depend on the rounding.

  Python integers are \<open>int\<close>; list positions that the script produces with \<open>range\<close> are \<open>nat\<close>.
\<close>

datatype py_error = ValueError | IndexError | ZeroDivisionError

fun bind_err :: "py_error + 'a \<Rightarrow> ('a \<Rightarrow> py_error + 'b) \<Rightarrow> py_error + 'b" where
  "bind_err (Inl e) f = Inl e"
| "bind_err (Inr x) f = f x"

text \<open>A loop (or comprehension) whose body may raise: the first exception ends it.\<close>

fun for_each :: "('a \<Rightarrow> py_error + 'b) \<Rightarrow> 'a list \<Rightarrow> py_error + 'b list" where
  "for_each f [] = Inr []"
| "for_each f (x # xs) =
     bind_err (f x) (\<lambda>y. bind_err (for_each f xs) (\<lambda>ys. Inr (y # ys)))"

text \<open>
  Subscripting \<open>xs[i]\<close> of a list or array of length \<open>len\<close>: positions \<open>0 .. len - 1\<close>
  are read directly, positions \<open>-len .. -1\<close> are read from the end, and every other
  position raises \<open>IndexError\<close>.
\<close>

definition getitem :: "'a list \<Rightarrow> int \<Rightarrow> py_error + 'a" where
  "getitem xs i =
     (if 0 \<le> i \<and> i < int (length xs) then Inr (xs ! nat i)
      else if - int (length xs) \<le> i \<and> i < 0 then Inr (xs ! nat (int (length xs) + i))
      else Inl IndexError)"

text \<open>\<open>range(n)\<close> is empty for \<open>n \<le> 0\<close>.\<close>

definition py_range :: "int \<Rightarrow> nat list" where
  "py_range n = [0..<nat n]"

text \<open>\<open>xs[:k]\<close>: a negative \<open>k\<close> drops \<open>-k\<close> elements from the end.\<close>

definition slice_to :: "'a list \<Rightarrow> int \<Rightarrow> 'a list" where
  "slice_to xs k = (if k < 0 then take (nat (int (length xs) + k)) xs else take (nat k) xs)"

text \<open>
  \<open>x % 1.0\<close> in the exact reading: the result has the sign of the divisor and lies in
  \<open>[0, 1)\<close>. On doubles the result of a negative operand is rounded and can be \<open>1.0\<close>;
  that is \<open>fl_mod1\<close> below.
\<close>

definition mod1 :: "real \<Rightarrow> real" where
  "mod1 x = x - of_int \<lfloor>x\<rfloor>"

text \<open>\<open>m % n\<close> on integers: floor modulus, \<open>ZeroDivisionError\<close> for \<open>n = 0\<close>.\<close>

definition py_mod :: "int \<Rightarrow> int \<Rightarrow> py_error + int" where
  "py_mod m n = (if n = 0 then Inl ZeroDivisionError else Inr (m mod n))"

text \<open>
  \<open>np.linspace(start, stop, num, endpoint=False)\<close>: \<open>num\<close> samples
  \<open>start + k * ((stop - start) / num)\<close>; a negative \<open>num\<close> raises \<open>ValueError\<close>.
\<close>

definition linspace :: "real \<Rightarrow> real \<Rightarrow> int \<Rightarrow> py_error + real list" where
  "linspace start stop num =
     (if num < 0 then Inl ValueError
      else Inr (map (\<lambda>k. start + real k * ((stop - start) / of_int num)) [0..<nat num]))"

text \<open>\<open>math.hypot\<close>.\<close>

definition hypot :: "real \<Rightarrow> real \<Rightarrow> real" where
  "hypot x y = sqrt (x\<^sup>2 + y\<^sup>2)"

section \<open>Parameters\<close>

text \<open>
  The numeric parameters of the script (lines 28-52) that the motion, detection and cue
  code reads. The script fixes them as module constants; they are fields here so that a
  statement can range over other values. \<open>default_config\<close> holds the script's values.
\<close>

record config =
  num_targets :: int
  phase_spread :: real
  ring_radius :: real
  ellipse_b_scale :: real
  speed_uniform :: real
  overlap_thresh :: real

definition default_config :: config where
  "default_config =
     \<lparr> num_targets = 20, phase_spread = 1, ring_radius = 250,
       ellipse_b_scale = 35 / 100, speed_uniform = 15 / 100, overlap_thresh = 36 \<rparr>"

definition num_pairs :: "config \<Rightarrow> int" where
  "num_pairs cfg = num_targets cfg div 2"

definition num_white_dots :: "config \<Rightarrow> int" where
  "num_white_dots cfg = num_pairs cfg - 1"

section \<open>Setup: targets, pairs, shuttle dots, phase offsets\<close>

definition angles :: "config \<Rightarrow> py_error + real list" where
  "angles cfg = linspace 0 (2 * pi) (num_targets cfg)"

text \<open>
  A target is represented by its \<open>pos\<close>; the other arguments of the circle are drawing data.
  Exact reading: on doubles the angle is a rounded multiple of the step and each
  coordinate is the rounded product of the radius with what the library's \<open>cos\<close> or \<open>sin\<close>
  returns, so a coordinate that is \<open>0\<close> here can be a tiny number of either sign there.
\<close>

definition targets :: "config \<Rightarrow> real list \<Rightarrow> (real \<times> real) list" where
  "targets cfg angs =
     map (\<lambda>ang. (ring_radius cfg * cos ang, ring_radius cfg * sin ang)) angs"

definition green_pair_index :: nat where
  "green_pair_index = 0"

definition available_pairs :: "config \<Rightarrow> nat list" where
  "available_pairs cfg = filter (\<lambda>i. i \<noteq> green_pair_index) (py_range (num_pairs cfg))"

definition white_pair_indices :: "config \<Rightarrow> nat list" where
  "white_pair_indices cfg = slice_to (available_pairs cfg) (num_white_dots cfg)"

text \<open>The script's \<open>a\<close> and \<open>b\<close> (lines 92-93).\<close>

definition ellipse_a :: "config \<Rightarrow> real" where
  "ellipse_a cfg = ring_radius cfg"

definition ellipse_b :: "config \<Rightarrow> real" where
  "ellipse_b cfg = ellipse_a cfg * ellipse_b_scale cfg"

text \<open>
  The loop of lines 99-113 appends to three lists once per pair index. A shuttle is
  represented by its \<open>theta\<close> (the dot itself is drawing data). Exact reading: the test
  \<open>cos theta < 0\<close> of line 113 is on the exact angle; on doubles an angle next to \<open>pi / 2\<close>
  can fall on either side. In both readings a base phase is \<open>0\<close> or \<open>0.5\<close>.
\<close>

definition white_shuttles :: "config \<Rightarrow> real list \<Rightarrow> py_error + real list" where
  "white_shuttles cfg angs = for_each (\<lambda>i. getitem angs (int i)) (white_pair_indices cfg)"

definition white_speeds :: "config \<Rightarrow> real list" where
  "white_speeds cfg = map (\<lambda>i. speed_uniform cfg) (white_pair_indices cfg)"

definition base_phases :: "real list \<Rightarrow> real list" where
  "base_phases shuttles = map (\<lambda>theta. if cos theta < 0 then 0 else 1 / 2) shuttles"

definition nwd :: "real list \<Rightarrow> nat" where
  "nwd shuttles = max 1 (length shuttles)"

definition gap :: "config \<Rightarrow> real list \<Rightarrow> real" where
  "gap cfg shuttles = phase_spread cfg * (1 / real (nwd shuttles))"

definition phase_offsets :: "config \<Rightarrow> real list \<Rightarrow> py_error + real list" where
  "phase_offsets cfg shuttles =
     for_each
       (\<lambda>j. bind_err (getitem (base_phases shuttles) (int j))
               (\<lambda>bp. Inr (mod1 (bp + real j * gap cfg shuttles))))
       (py_range (int (nwd shuttles)))"

text \<open>The module state the frame loop reads, as left by the setup code.\<close>

record scene =
  sc_targets :: "(real \<times> real) list"
  sc_white_shuttles :: "real list"
  sc_white_speeds :: "real list"
  sc_phase_offsets :: "real list"
  sc_a :: real
  sc_b :: real
  sc_green_pair_pos_a :: "real \<times> real"
  sc_green_pair_pos_b :: "real \<times> real"

text \<open>
  The setup code of lines 70-143 in the order in which it runs; the first exception
  ends the script before the frame loop.
\<close>

definition setup_scene :: "config \<Rightarrow> py_error + scene" where
  "setup_scene cfg =
     bind_err (angles cfg) (\<lambda>angs.
     bind_err (white_shuttles cfg angs) (\<lambda>shuttles.
     bind_err (phase_offsets cfg shuttles) (\<lambda>offs.
     bind_err (py_mod (int green_pair_index + num_pairs cfg) (num_targets cfg)) (\<lambda>idx_b.
     bind_err (getitem angs (int green_pair_index)) (\<lambda>ang_a.
     bind_err (getitem angs idx_b) (\<lambda>ang_b.
       Inr \<lparr> sc_targets = targets cfg angs,
             sc_white_shuttles = shuttles,
             sc_white_speeds = white_speeds cfg,
             sc_phase_offsets = offs,
             sc_a = ellipse_a cfg,
             sc_b = ellipse_b cfg,
             sc_green_pair_pos_a = (ring_radius cfg * cos ang_a, ring_radius cfg * sin ang_a),
             sc_green_pair_pos_b = (ring_radius cfg * cos ang_b, ring_radius cfg * sin ang_b)
           \<rparr>))))))"

section \<open>Helpers and the frame loop\<close>

text \<open>Lines 149-156 in the exact reading; \<open>fl_ellipse_position\<close> below is the double reading.\<close>

definition ellipse_position :: "real \<Rightarrow> real \<Rightarrow> real \<Rightarrow> real \<Rightarrow> real \<times> real" where
  "ellipse_position phase theta a b =
     (let t = 2 * pi * phase;
          ex = a * cos t;
          ey = b * sin t;
          c = cos theta;
          s = sin theta;
          x = ex * c - ey * s;
          y = ex * s + ey * c
      in (x, y))"

definition distance :: "real \<times> real \<Rightarrow> real \<times> real \<Rightarrow> real" where
  "distance p1 p2 = hypot (fst p1 - fst p2) (snd p1 - snd p2)"

text \<open>
  Lines 176-177 for one shuttle: the phase at elapsed time \<open>t\<close> for speed \<open>s\<close> and phase
  offset \<open>o\<close>, and the position on the ellipse, in the exact reading; \<open>fl_phase\<close> and
  \<open>fl_position_at\<close> below are the double reading.
\<close>

definition position_at :: "real \<Rightarrow> real \<Rightarrow> real \<Rightarrow> real \<Rightarrow> real \<Rightarrow> real \<Rightarrow> real \<times> real" where
  "position_at t s o_off theta a b = ellipse_position (mod1 (t * s + o_off)) theta a b"

text \<open>The loop of lines 175-179: the positions given to the dots, in order.\<close>

definition shuttle_positions :: "scene \<Rightarrow> real \<Rightarrow> py_error + (real \<times> real) list" where
  "shuttle_positions sc t =
     for_each
       (\<lambda>(i, theta).
          bind_err (getitem (sc_white_speeds sc) (int i)) (\<lambda>speed.
          bind_err (getitem (sc_phase_offsets sc) (int i)) (\<lambda>off.
            Inr (position_at t speed off theta (sc_a sc) (sc_b sc)))))
       (enumerate 0 (sc_white_shuttles sc))"

text \<open>Line 185: \<open>any(distance(dot.pos, green_dot.pos) < overlap_thresh ...)\<close>.\<close>

definition overlap :: "config \<Rightarrow> (real \<times> real) list \<Rightarrow> real \<times> real \<Rightarrow> bool" where
  "overlap cfg dots green = list_ex (\<lambda>p. distance p green < overlap_thresh cfg) dots"

text \<open>
  Lines 187-189. \<open>beep\<close> is true when the sound object was created (\<open>beep is not None\<close>).
  The result is whether the beep is played, and the new \<open>last_beep_time\<close>.
\<close>

definition initial_last_beep_time :: real where
  "initial_last_beep_time = - 1"






section \<open>Double arithmetic\<close>

text \<open>
  \<open>fl x\<close> is the double nearest to \<open>x\<close>, ties going to the even significand: the result
  that IEEE 754 gives an operation whose exact result is \<open>x\<close>. \<open>fl_exponent x\<close> is the
  exponent of the binade of \<open>x\<close>, not below that of the subnormal numbers; a double is a
  multiple of \<open>2 ^ (fl_exponent x - 52)\<close>. Overflow to infinity (beyond about \<open>1.8e308\<close>)
  is not modelled.
\<close>

definition round_half_even :: "real \<Rightarrow> int" where
  "round_half_even y =
     (let f = \<lfloor>y\<rfloor>; d = y - of_int f
      in if d < 1 / 2 then f else if 1 / 2 < d then f + 1 else if even f then f else f + 1)"

definition fl_exponent :: "real \<Rightarrow> int" where
  "fl_exponent x = max (- 1022) \<lfloor>log 2 \<bar>x\<bar>\<rfloor>"

definition fl :: "real \<Rightarrow> real" where
  "fl x =
     (if x = 0 then 0
      else of_int (round_half_even (x / 2 powi (fl_exponent x - 52))) * 2 powi (fl_exponent x - 52))"


text \<open>
  \<open>x % 1.0\<close> on Python floats: \<open>fmod\<close>, which is exact and has the sign of \<open>x\<close>, and then
  \<open>+ 1.0\<close>, which rounds, when that remainder is negative.
\<close>

definition fl_mod1 :: "real \<Rightarrow> real" where
  "fl_mod1 x =
     (let m = x - of_int (if 0 \<le> x then \<lfloor>x\<rfloor> else \<lceil>x\<rceil>)
      in if m < 0 then fl (m + 1) else m)"

text \<open>Lines 187-189 on doubles: the difference \<open>now - last_beep_time\<close> is rounded, and \<open>0.22\<close> is the double nearest to 22/100.\<close>

definition fl_cue_trigger :: "bool \<Rightarrow> bool \<Rightarrow> real \<Rightarrow> real \<Rightarrow> bool \<times> real" where
  "fl_cue_trigger beep ovl now last_beep_time =
     (if beep \<and> ovl \<and> fl (now - last_beep_time) \<ge> fl (22 / 100)
      then (True, now) else (False, last_beep_time))"

text \<open>
  Lines 185-189 over successive passes, given the overlap value and the clock reading of
  each pass.
\<close>

fun fl_cue_loop :: "bool \<Rightarrow> real \<Rightarrow> (bool \<times> real) list \<Rightarrow> bool list" where
  "fl_cue_loop beep last_beep_time [] = []"
| "fl_cue_loop beep last_beep_time ((ovl, now) # rest) =
     (let (cue, last') = fl_cue_trigger beep ovl now last_beep_time
      in cue # fl_cue_loop beep last' rest)"

text \<open>
  Lines 118-119 on doubles: the gap for \<open>nwd = n\<close>, and the phase offset of the shuttle
  with index \<open>j\<close> and base phase \<open>bp\<close>.
\<close>

definition fl_gap :: "real \<Rightarrow> nat \<Rightarrow> real" where
  "fl_gap spread n = fl (spread * fl (1 / real n))"

definition fl_phase_offset :: "real \<Rightarrow> nat \<Rightarrow> real \<Rightarrow> real" where
  "fl_phase_offset bp j g = fl_mod1 (fl (bp + fl (real j * g)))"





section \<open>Basic facts\<close>

lemma mod1_frac: "mod1 x = frac x"
  by (simp add: mod1_def frac_def)

lemma for_each_Inr:
  "(\<And>x. x \<in> set xs \<Longrightarrow> f x = Inr (g x)) \<Longrightarrow> for_each f xs = Inr (map g xs)"
  by (induction xs) simp_all

lemma getitem_nat: "i < length xs \<Longrightarrow> getitem xs (int i) = Inr (xs ! i)"
  by (simp add: getitem_def)

section \<open>Rounding to a double\<close>

lemma round_half_even_eqI:
  assumes "\<bar>y - of_int n\<bar> < 1 / 2"
  shows "round_half_even y = n"
proof -
  from assms have "\<lfloor>y\<rfloor> = n \<or> \<lfloor>y\<rfloor> = n - 1" by linarith
  then show ?thesis
  proof
    assume f: "\<lfloor>y\<rfloor> = n"
    with assms have "y - of_int n < 1 / 2" by linarith
    with f show ?thesis by (simp add: round_half_even_def Let_def)
  next
    assume f: "\<lfloor>y\<rfloor> = n - 1"
    from assms have "- (1 / 2) < y - of_int n" by linarith
    then have "1 / 2 < y - of_int (n - 1)" by simp
    with f show ?thesis by (simp add: round_half_even_def Let_def)
  qed
qed

lemma round_half_even_ge_floor: "\<lfloor>y\<rfloor> \<le> round_half_even y"
  by (simp add: round_half_even_def Let_def)

lemma two_powi_powr: "(2::real) powi e = 2 powr (of_int e)"
  by (simp add: powr_real_of_int')

lemma two_powi_le_abs_pos: "2 powi e \<le> \<bar>x\<bar> \<Longrightarrow> 0 < \<bar>x::real\<bar>"
  by (rule less_le_trans [of 0 "2 powi e"]) simp_all

lemma fl_exponent_eqI:
  assumes "2 powi e \<le> \<bar>x\<bar>" "\<bar>x\<bar> < 2 powi (e + 1)" "- 1022 \<le> e"
  shows "fl_exponent x = e"
proof -
  have pos: "0 < \<bar>x\<bar>" using assms(1) by (rule two_powi_le_abs_pos)
  have "\<lfloor>log 2 \<bar>x\<bar>\<rfloor> = e"
    using assms(1,2) pos by (subst floor_log_eq_powr_iff) (simp_all add: two_powi_powr)
  with assms(3) show ?thesis by (simp add: fl_exponent_def)
qed

text \<open>The double nearest to \<open>x\<close> is \<open>n * 2 ^ (e - 52)\<close> when \<open>x\<close> lies in the binade of \<open>2 ^ e\<close> and within half a unit of \<open>n\<close> on that grid.\<close>

lemma fl_value:
  assumes "2 powi e \<le> \<bar>x\<bar>" "\<bar>x\<bar> < 2 powi (e + 1)" "- 1022 \<le> e"
    and "\<bar>x / 2 powi (e - 52) - of_int n\<bar> < 1 / 2"
  shows "fl x = of_int n * 2 powi (e - 52)"
proof -
  have "x \<noteq> 0" using two_powi_le_abs_pos [OF assms(1)] by simp
  then show ?thesis
    by (simp add: fl_def fl_exponent_eqI [OF assms(1-3)] round_half_even_eqI [OF assms(4)])
qed

lemma fl_ge_one:
  assumes "1 \<le> x"
  shows "1 \<le> fl x"
proof -
  define e where "e = \<lfloor>log 2 \<bar>x\<bar>\<rfloor>"
  have x: "\<bar>x\<bar> = x" "x \<noteq> 0" "0 < x" using assms by simp_all
  have "0 \<le> log 2 x" using assms by simp
  then have e0: "0 \<le> e" by (simp add: e_def x)
  then have fe: "fl_exponent x = e" by (simp add: fl_exponent_def e_def)
  have "2 powr (of_int e) \<le> 2 powr (log 2 x)"
    by (rule powr_mono) (simp_all add: e_def x)
  then have le: "2 powi e \<le> x" using x by (simp add: two_powi_powr)
  have "2 powi e / 2 powi (e - 52) \<le> x / 2 powi (e - 52)"
    using le by (simp add: divide_right_mono)
  moreover have "(2::real) powi e / 2 powi (e - 52) = 2 powi 52"
    by (simp add: power_int_diff [symmetric])
  ultimately have "of_int (2 ^ 52) \<le> x / 2 powi (e - 52)" by simp
  then have "2 ^ 52 \<le> \<lfloor>x / 2 powi (e - 52)\<rfloor>" by (simp only: le_floor_iff)
  with round_half_even_ge_floor [of "x / 2 powi (e - 52)"]
  have "(2::int) ^ 52 \<le> round_half_even (x / 2 powi (e - 52))" by linarith
  then have "of_int (2 ^ 52) \<le> (of_int (round_half_even (x / 2 powi (e - 52))) :: real)"
    by (simp only: of_int_le_iff)
  then have "of_int (2 ^ 52) * (2::real) powi (e - 52)
      \<le> of_int (round_half_even (x / 2 powi (e - 52))) * 2 powi (e - 52)"
    by (rule mult_right_mono) simp
  moreover have "of_int (2 ^ 52) * (2::real) powi (e - 52) = 2 powi e"
    by (simp add: power_int_diff)
  moreover have "1 \<le> (2::real) powi e"
    using e0 by (simp add: one_le_power_int)
  ultimately have "1 \<le> of_int (round_half_even (x / 2 powi (e - 52))) * (2::real) powi (e - 52)"
    by linarith
  then show ?thesis
    using x by (simp add: fl_def fe)
qed

lemma fl_mod1_nonneg: "0 \<le> x \<Longrightarrow> fl_mod1 x = x - of_int \<lfloor>x\<rfloor>"
  by (simp add: fl_mod1_def Let_def) linarith


text \<open>A tie goes to the even neighbour.\<close>

lemma round_half_even_tie:
  assumes "\<bar>y - of_int n\<bar> = 1 / 2" and "even n"
  shows "round_half_even y = n"
proof -
  from assms(1) consider "y = of_int n + 1 / 2" | "y = of_int n - 1 / 2" by linarith
  then show ?thesis
  proof cases
    case 1
    then have "\<lfloor>y\<rfloor> = n" by linarith
    with 1 assms(2) show ?thesis by (simp add: round_half_even_def Let_def)
  next
    case 2
    then have f: "\<lfloor>y\<rfloor> = n - 1" by linarith
    with 2 have "y - of_int \<lfloor>y\<rfloor> = 1 / 2" by simp
    with f assms(2) show ?thesis by (simp add: round_half_even_def Let_def)
  qed
qed

lemma fl_value_tie:
  assumes "2 powi e \<le> \<bar>x\<bar>" "\<bar>x\<bar> < 2 powi (e + 1)" "- 1022 \<le> e"
    and "\<bar>x / 2 powi (e - 52) - of_int n\<bar> = 1 / 2" and "even n"
  shows "fl x = of_int n * 2 powi (e - 52)"
proof -
  have "x \<noteq> 0" using two_powi_le_abs_pos [OF assms(1)] by simp
  then show ?thesis
    by (simp add: fl_def fl_exponent_eqI [OF assms(1-3)] round_half_even_tie [OF assms(4,5)])
qed

text \<open>Rounding changes a number by at most half a unit in the last place.\<close>

lemma round_half_even_error: "\<bar>of_int (round_half_even y) - y\<bar> \<le> 1 / 2"
  unfolding round_half_even_def Let_def by (auto; linarith)

lemma fl_error:
  assumes "2 powi (- 1022) \<le> \<bar>x\<bar>"
  shows "\<bar>fl x - x\<bar> \<le> \<bar>x\<bar> / 2 ^ 53"
proof -
  define e where "e = \<lfloor>log 2 \<bar>x\<bar>\<rfloor>"
  have pos: "0 < \<bar>x\<bar>" using assms by (rule two_powi_le_abs_pos)
  then have x0: "x \<noteq> 0" by simp
  have "2 powr (of_int (- 1022)) \<le> \<bar>x\<bar>" using assms by (simp only: two_powi_powr)
  then have "of_int (- 1022) \<le> log 2 \<bar>x\<bar>" using pos by (simp add: le_log_iff)
  then have e1: "- 1022 \<le> e" unfolding e_def by (simp only: le_floor_iff)
  then have fe: "fl_exponent x = e" by (simp add: fl_exponent_def e_def)
  have "2 powr (of_int e) \<le> 2 powr (log 2 \<bar>x\<bar>)"
    by (rule powr_mono) (simp_all add: e_def)
  then have le: "2 powi e \<le> \<bar>x\<bar>" using pos by (simp add: two_powi_powr)
  define p :: real where "p = 2 powi (e - 52)"
  have p0: "0 < p" by (simp add: p_def)
  define r where "r = round_half_even (x / p)"
  have "fl x - x = (of_int r - x / p) * p"
    using p0 x0 by (simp add: fl_def fe r_def p_def [symmetric] field_simps)
  then have "\<bar>fl x - x\<bar> = \<bar>of_int r - x / p\<bar> * p"
    using p0 by (simp add: abs_mult)
  also have "\<dots> \<le> 1 / 2 * p"
    using round_half_even_error [of "x / p"] p0 by (intro mult_right_mono) (simp_all add: r_def)
  also have "1 / 2 * p = 2 powi e / 2 ^ 53"
    by (simp add: p_def power_int_diff)
  also have "\<dots> \<le> \<bar>x\<bar> / 2 ^ 53"
    using le by (simp add: divide_right_mono)
  finally show ?thesis .
qed

lemma fl_rel:
  assumes "1 / 10000000 \<le> x" and u: "u = 1 / 2 ^ 53"
  shows "x * (1 - u) \<le> fl x" and "fl x \<le> x * (1 + u)"
proof -
  have "(2::real) powi (- 1022) \<le> 1 / 10000000" by (simp add: power_int_minus field_simps)
  with assms have "2 powi (- 1022) \<le> \<bar>x\<bar>" by linarith
  from fl_error [OF this] assms have "\<bar>fl x - x\<bar> \<le> x / 2 ^ 53" by simp
  also have "x / 2 ^ 53 = x * u" by (simp add: u)
  finally have "\<bar>fl x - x\<bar> \<le> x * u" .
  then have d: "fl x - x \<le> x * u" "- (x * u) \<le> fl x - x"
    by linarith+
  from d(2) show "x * (1 - u) \<le> fl x" by (simp add: algebra_simps)
  from d(1) show "fl x \<le> x * (1 + u)" by (simp add: algebra_simps)
qed

lemma fl_zero: "fl 0 = 0" by (simp add: fl_def)

section \<open>The cue trigger\<close>


text \<open>The doubles nearest to 0.22, 0.44, 0.66 and 0.88, and the rounded differences of successive ones.\<close>

lemma fl_22: "fl (22 / 100) = 7926335344172073 / 2 ^ 55"
  using fl_value [of "- 3" "22 / 100" 7926335344172073] by simp

lemma fl_44: "fl (44 / 100) = 7926335344172073 / 2 ^ 54"
  using fl_value [of "- 2" "44 / 100" 7926335344172073] by simp

lemma fl_66: "fl (66 / 100) = 5944751508129055 / 2 ^ 53"
  using fl_value [of "- 1" "66 / 100" 5944751508129055] by simp

lemma fl_88: "fl (88 / 100) = 7926335344172073 / 2 ^ 53"
  using fl_value [of "- 1" "88 / 100" 7926335344172073] by simp

lemma fl_diff_22_0: "fl (7926335344172073 / 2 ^ 55 - 0) = 7926335344172073 / 2 ^ 55"
  using fl_value [of "- 3" "7926335344172073 / 2 ^ 55 - 0" 7926335344172073] by simp

lemma fl_diff_44_22: "fl (7926335344172073 / 2 ^ 54 - 7926335344172073 / 2 ^ 55) = 7926335344172073 / 2 ^ 55"
  using fl_value [of "- 3" "7926335344172073 / 2 ^ 54 - 7926335344172073 / 2 ^ 55" 7926335344172073] by simp

lemma fl_diff_66_44: "fl (5944751508129055 / 2 ^ 53 - 7926335344172073 / 2 ^ 54) = 3963167672086037 / 2 ^ 54"
  using fl_value [of "- 3" "5944751508129055 / 2 ^ 53 - 7926335344172073 / 2 ^ 54" 7926335344172074] by simp

lemma fl_diff_88_66: "fl (7926335344172073 / 2 ^ 53 - 5944751508129055 / 2 ^ 53) = 990791918021509 / 2 ^ 52"
  using fl_value [of "- 3" "7926335344172073 / 2 ^ 53 - 5944751508129055 / 2 ^ 53" 7926335344172072] by simp

lemma cue_step_first: "fl (22 / 100) \<le> fl (now - (- 1))" if "0 \<le> now"
proof -
  from that have "1 \<le> fl (now - (- 1))" by (intro fl_ge_one) simp
  moreover have "fl (22 / 100) \<le> 1" unfolding fl_22 by simp
  ultimately show ?thesis by linarith
qed

lemma cue_step_22: "fl (22 / 100) \<le> fl (fl (22 / 100) - 0)"
  unfolding fl_22 fl_diff_22_0 by simp

lemma cue_step_44: "fl (22 / 100) \<le> fl (fl (44 / 100) - fl (22 / 100))"
  unfolding fl_22 fl_44 fl_diff_44_22 by simp

lemma cue_step_66: "fl (22 / 100) \<le> fl (fl (66 / 100) - fl (44 / 100))"
  unfolding fl_22 fl_44 fl_66 fl_diff_66_44 by simp

lemma cue_step_88: "\<not> fl (22 / 100) \<le> fl (fl (88 / 100) - fl (66 / 100))"
  unfolding fl_22 fl_66 fl_88 fl_diff_88_66 by simp

lemma four_cues:
  "fl_cue_loop True (- 1)
     [(True, 0), (True, fl (22 / 100)), (True, fl (44 / 100)), (True, fl (66 / 100))]
   = [True, True, True, True]"
  using cue_step_first [of 0] cue_step_22 cue_step_44 cue_step_66
  by (simp add: fl_cue_trigger_def)

text \<open>
  C1, as the code has it, for the trigger with a sound object (without one the script is
  silent by design). For a clock reading \<open>now \<ge> 0\<close> the cue is played iff the overlap
  value is true and (\<open>last_beep_time\<close> is the initial "never" value \<open>-1.0\<close> or the computed
  difference \<open>now - last_beep_time\<close> is at least \<open>0.22\<close>), and \<open>last_beep_time\<close> becomes \<open>now\<close>
  exactly when the cue is played; so the first cue under overlap is played at once. With
  overlap true in every pass and the clock readings \<open>0, 0.22, 0.44, 0.66\<close> every pass plays
  the cue.
\<close>

theorem fl_cue_trigger_rule:
  "(0 \<le> now \<longrightarrow>
      fst (fl_cue_trigger True ovl now lbt) =
        (ovl \<and> (lbt = initial_last_beep_time \<or> fl (22 / 100) \<le> fl (now - lbt))))
   \<and> snd (fl_cue_trigger True ovl now lbt) =
        (if fst (fl_cue_trigger True ovl now lbt) then now else lbt)
   \<and> fl_cue_loop True initial_last_beep_time
        [(True, 0), (True, fl (22 / 100)), (True, fl (44 / 100)), (True, fl (66 / 100))]
      = [True, True, True, True]"
proof -
  have a: "0 \<le> now \<longrightarrow>
      fst (fl_cue_trigger True ovl now lbt) =
        (ovl \<and> (lbt = initial_last_beep_time \<or> fl (22 / 100) \<le> fl (now - lbt)))"
    using cue_step_first [of now]
    by (auto simp: fl_cue_trigger_def initial_last_beep_time_def)
  have b: "snd (fl_cue_trigger True ovl now lbt) =
        (if fst (fl_cue_trigger True ovl now lbt) then now else lbt)"
    by (simp add: fl_cue_trigger_def)
  from a b four_cues show ?thesis
    unfolding initial_last_beep_time_def by blast
qed

theorem fl_cue_trigger_rule_witness:
  "(0::real) \<le> 0
   \<and> fst (fl_cue_trigger True True 0 initial_last_beep_time)
   \<and> snd (fl_cue_trigger True True 0 initial_last_beep_time) = 0"
  using fl_cue_trigger_rule [of 0 True initial_last_beep_time]
  by (simp add: initial_last_beep_time_def)

text \<open>
  C1 as stated fails on the sequence \<open>0, 0.22, 0.44, ...\<close>: the doubles \<open>0.88\<close> and \<open>0.66\<close>
  differ by \<open>0.21999999999999997\<close>, which is below the double \<open>0.22\<close>, so with overlap true
  in every pass the pass at \<open>0.88\<close> plays no cue.
\<close>

theorem fl_cue_skips_fifth_reading:
  "fl_cue_loop True initial_last_beep_time
     [(True, 0), (True, fl (22 / 100)), (True, fl (44 / 100)), (True, fl (66 / 100)),
      (True, fl (88 / 100))]
   = [True, True, True, True, False]
   \<and> fl (fl (88 / 100) - fl (66 / 100)) = 990791918021509 / 2 ^ 52
   \<and> fl (22 / 100) = 7926335344172073 / 2 ^ 55
   \<and> fl (fl (88 / 100) - fl (66 / 100)) < fl (22 / 100)"
proof -
  have "fl_cue_loop True (- 1)
     [(True, 0), (True, fl (22 / 100)), (True, fl (44 / 100)), (True, fl (66 / 100)),
      (True, fl (88 / 100))]
   = [True, True, True, True, False]"
    using cue_step_first [of 0] cue_step_22 cue_step_44 cue_step_66 cue_step_88
    by (simp add: fl_cue_trigger_def)
  moreover have "fl (fl (88 / 100) - fl (66 / 100)) = 990791918021509 / 2 ^ 52"
    unfolding fl_88 fl_66 fl_diff_88_66 ..
  moreover have "fl (fl (88 / 100) - fl (66 / 100)) < fl (22 / 100)"
    using cue_step_88 by simp
  ultimately show ?thesis
    unfolding initial_last_beep_time_def using fl_22 by blast
qed






section \<open>The proximity detector\<close>

text \<open>
  C2. For every pointer position \<open>green\<close> and every list \<open>dots\<close> of shuttle positions, the
  overlap value of line 185 is true iff some shuttle position has distance to the pointer
  strictly below \<open>overlap_thresh\<close>, where the distance is the Euclidean one. A shuttle at
  distance \<open>0\<close> gives overlap for every positive threshold; when every shuttle is at
  distance exactly \<open>overlap_thresh\<close> there is no overlap.
\<close>

theorem overlap_iff_within_thresh:
  "(overlap cfg dots green \<longleftrightarrow> (\<exists>p \<in> set dots. distance p green < overlap_thresh cfg))
   \<and> distance p green = sqrt ((fst p - fst green)\<^sup>2 + (snd p - snd green)\<^sup>2)
   \<and> (0 < overlap_thresh cfg \<and> p \<in> set dots \<and> distance p green = 0
        \<longrightarrow> overlap cfg dots green)
   \<and> ((\<forall>q \<in> set dots. distance q green = overlap_thresh cfg) \<longrightarrow> \<not> overlap cfg dots green)"
proof -
  have iff: "overlap cfg dots green \<longleftrightarrow> (\<exists>p \<in> set dots. distance p green < overlap_thresh cfg)"
    by (simp add: overlap_def list_ex_iff)
  have eucl: "distance p green = sqrt ((fst p - fst green)\<^sup>2 + (snd p - snd green)\<^sup>2)"
    by (simp add: distance_def hypot_def)
  have zero: "0 < overlap_thresh cfg \<and> p \<in> set dots \<and> distance p green = 0
      \<longrightarrow> overlap cfg dots green"
    unfolding iff by (metis (full_types))
  have edge: "(\<forall>q \<in> set dots. distance q green = overlap_thresh cfg)
      \<longrightarrow> \<not> overlap cfg dots green"
    unfolding iff by auto
  from iff eucl zero edge show ?thesis by (intro conjI)
qed

theorem overlap_iff_within_thresh_witness:
  "0 < overlap_thresh default_config \<and> distance (3, 4) (3, 4) = 0
   \<and> overlap default_config [(100, 0), (3, 4)] (3, 4)
   \<and> distance (39, 4) (3, 4) = overlap_thresh default_config
   \<and> \<not> overlap default_config [(39, 4)] (3, 4)"
  using overlap_iff_within_thresh [of default_config "[(100, 0), (3, 4)]" "(3, 4)" "(3, 4)"]
        overlap_iff_within_thresh [of default_config "[(39, 4)]" "(3, 4)" "(39, 4)"]
  by (simp add: default_config_def distance_def hypot_def)

section \<open>The orbit\<close>

text \<open>
  In the exact reading the position is periodic with period \<open>1 / s\<close>.
\<close>

lemma position_at_shift:
  assumes "0 < s"
  shows "position_at (t + 1 / s) s o_off theta a b = position_at t s o_off theta a b"
proof -
  from assms have "(t + 1 / s) * s + o_off = (t * s + o_off) + 1"
    by (simp add: field_simps)
  then have "mod1 ((t + 1 / s) * s + o_off) = mod1 (t * s + o_off)"
    unfolding mod1_frac by (simp only: frac_1_eq)
  then show ?thesis by (simp add: position_at_def)
qed




















lemma fl_half: "fl (1 / 2) = 1 / 2" using fl_value [of "- 1" "1 / 2" "2 ^ 52"] by simp



text \<open>
  C9. With the script's ring radius \<open>250\<close> and ellipse scale \<open>0.35\<close> the semi-minor axis
  \<open>b\<close> is \<open>87.5\<close>, and \<open>ellipse_position\<close> at phase \<open>0.25\<close> and orientation \<open>0\<close> is exactly
  \<open>(0, 87.5)\<close>.
\<close>

theorem quarter_phase_position:
  "ellipse_b default_config = 175 / 2
   \<and> ellipse_position (1 / 4) 0 (ellipse_a default_config) (ellipse_b default_config)
       = (0, 175 / 2)"
  by (simp add: ellipse_b_def ellipse_a_def default_config_def ellipse_position_def)

section \<open>What the setup code computes\<close>

lemma angles_eq:
  "0 \<le> num_targets cfg \<Longrightarrow>
   angles cfg = Inr (map (\<lambda>k. real k * (2 * pi / of_int (num_targets cfg))) [0..<nat (num_targets cfg)])"
  by (simp add: angles_def linspace_def)

lemma filter_neq_0_upt: "filter (\<lambda>i. i \<noteq> (0::nat)) [0..<n] = [1..<n]"
proof (cases n)
  case 0
  then show ?thesis by simp
next
  case (Suc m)
  have "[0..<Suc m] = 0 # [1..<Suc m]"
    by (simp add: upt_conv_Cons del: upt_Suc)
  moreover have "filter (\<lambda>i. i \<noteq> (0::nat)) [1..<Suc m] = [1..<Suc m]"
    by (simp add: filter_id_conv del: upt_Suc)
  ultimately show ?thesis using Suc by (simp del: upt_Suc)
qed

lemma available_pairs_eq: "available_pairs cfg = [1..<nat (num_pairs cfg)]"
  using filter_neq_0_upt [of "nat (num_pairs cfg)"]
  by (simp add: available_pairs_def py_range_def green_pair_index_def)

lemma white_pair_indices_eq: "white_pair_indices cfg = [1..<nat (num_pairs cfg)]"
  by (simp add: white_pair_indices_def slice_to_def available_pairs_eq num_white_dots_def)

lemma white_shuttles_eq:
  assumes "nat (num_pairs cfg) \<le> length angs"
  shows "white_shuttles cfg angs = Inr (map (\<lambda>i. angs ! i) [1..<nat (num_pairs cfg)])"
  unfolding white_shuttles_def white_pair_indices_eq
  using assms by (intro for_each_Inr) (simp add: getitem_nat)

lemma phase_offsets_eq:
  assumes "shuttles \<noteq> []"
  shows "phase_offsets cfg shuttles =
     Inr (map (\<lambda>j. mod1 (base_phases shuttles ! j + real j * gap cfg shuttles))
            [0..<length shuttles])"
proof -
  from assms have n: "nwd shuttles = length shuttles"
    by (cases shuttles) (simp_all add: nwd_def)
  show ?thesis
    unfolding phase_offsets_def py_range_def n
    by (simp, intro for_each_Inr) (simp add: getitem_nat base_phases_def)
qed

lemma phase_offsets_empty: "phase_offsets cfg [] = Inl IndexError"
  by (simp add: phase_offsets_def py_range_def nwd_def base_phases_def getitem_def)


lemma setup_scene_eq:
  fixes cfg :: config
  defines "angs \<equiv> map (\<lambda>k. real k * (2 * pi / of_int (num_targets cfg))) [0..<nat (num_targets cfg)]"
  defines "shuttles \<equiv> map (\<lambda>i. angs ! i) [1..<nat (num_pairs cfg)]"
  assumes N: "4 \<le> num_targets cfg"
  shows "setup_scene cfg =
    Inr \<lparr> sc_targets = targets cfg angs,
          sc_white_shuttles = shuttles,
          sc_white_speeds = white_speeds cfg,
          sc_phase_offsets =
            map (\<lambda>j. mod1 (base_phases shuttles ! j + real j * gap cfg shuttles))
              [0..<length shuttles],
          sc_a = ellipse_a cfg,
          sc_b = ellipse_b cfg,
          sc_green_pair_pos_a = (ring_radius cfg * cos (angs ! 0), ring_radius cfg * sin (angs ! 0)),
          sc_green_pair_pos_b =
            (ring_radius cfg * cos (angs ! nat (num_pairs cfg)),
             ring_radius cfg * sin (angs ! nat (num_pairs cfg))) \<rparr>"
proof -
  have a: "angles cfg = Inr angs"
    using N by (simp add: angles_eq angs_def)
  have len: "length angs = nat (num_targets cfg)"
    by (simp add: angs_def)
  have np: "2 \<le> num_pairs cfg" "num_pairs cfg < num_targets cfg"
    using N by (simp_all add: num_pairs_def)
  have w: "white_shuttles cfg angs = Inr shuttles"
    unfolding shuttles_def using np len by (intro white_shuttles_eq) simp
  have ne: "shuttles \<noteq> []"
    using np by (simp add: shuttles_def)
  have m: "py_mod (int green_pair_index + num_pairs cfg) (num_targets cfg) = Inr (num_pairs cfg)"
    using N np by (simp add: py_mod_def green_pair_index_def)
  have g0: "getitem angs (int green_pair_index) = Inr (angs ! 0)"
    using N len by (simp add: getitem_def green_pair_index_def)
  have g1: "getitem angs (num_pairs cfg) = Inr (angs ! nat (num_pairs cfg))"
    using np len by (simp add: getitem_def)
  show ?thesis
    by (simp add: setup_scene_def a w phase_offsets_eq [OF ne] m g0 g1)
qed

lemma setup_scene_small:
  assumes "num_targets cfg < 4"
  shows "setup_scene cfg = Inl (if num_targets cfg < 0 then ValueError else IndexError)"
proof (cases "num_targets cfg < 0")
  case True
  then show ?thesis by (simp add: setup_scene_def angles_def linspace_def)
next
  case False
  then have a: "angles cfg =
      Inr (map (\<lambda>k. real k * (2 * pi / of_int (num_targets cfg))) [0..<nat (num_targets cfg)])"
    by (simp add: angles_eq)
  have "nat (num_pairs cfg) \<le> 1"
    using assms by (simp add: num_pairs_def)
  then have "white_pair_indices cfg = []"
    by (simp add: white_pair_indices_eq)
  then have w: "white_shuttles cfg angs = Inr []" for angs
    by (simp add: white_shuttles_def)
  show ?thesis
    using False by (simp add: setup_scene_def a w phase_offsets_empty)
qed

lemma white_pair_indices_nth:
  "j < nat (num_pairs cfg) - 1 \<Longrightarrow> white_pair_indices cfg ! j = Suc j"
  by (simp add: white_pair_indices_eq)

lemma setup_scene_InrD:
  assumes "setup_scene cfg = Inr sc"
  shows "4 \<le> num_targets cfg"
    and "length (sc_targets sc) = nat (num_targets cfg)"
    and "\<And>k. k < nat (num_targets cfg) \<Longrightarrow>
           sc_targets sc ! k =
             (ring_radius cfg * cos (real k * (2 * pi / of_int (num_targets cfg))),
              ring_radius cfg * sin (real k * (2 * pi / of_int (num_targets cfg))))"
    and "length (sc_white_shuttles sc) = nat (num_pairs cfg) - 1"
    and "\<And>j. j < nat (num_pairs cfg) - 1 \<Longrightarrow>
           sc_white_shuttles sc ! j = real (Suc j) * (2 * pi / of_int (num_targets cfg))"
    and "sc_white_speeds sc = replicate (nat (num_pairs cfg) - 1) (speed_uniform cfg)"
    and "length (sc_phase_offsets sc) = nat (num_pairs cfg) - 1"
    and "\<And>j. j < nat (num_pairs cfg) - 1 \<Longrightarrow>
           sc_phase_offsets sc ! j =
             mod1 (base_phases (sc_white_shuttles sc) ! j
                   + real j * (phase_spread cfg * (1 / real (nat (num_pairs cfg) - 1))))"
    and "sc_a sc = ring_radius cfg"
    and "sc_b sc = ring_radius cfg * ellipse_b_scale cfg"
proof -
  show N: "4 \<le> num_targets cfg"
  proof (rule ccontr)
    assume "\<not> 4 \<le> num_targets cfg"
    then have "num_targets cfg < 4" by simp
    from setup_scene_small [OF this] assms show False by simp
  qed
  note eq = setup_scene_eq [OF N, unfolded assms, simplified]
  have np: "nat (num_pairs cfg) \<le> nat (num_targets cfg)" "2 \<le> nat (num_pairs cfg)"
    using N by (simp_all add: num_pairs_def)
  have sh: "sc_white_shuttles sc =
      map ((!) (map (\<lambda>k. real k * (2 * pi / of_int (num_targets cfg))) [0..<nat (num_targets cfg)]))
        [1..<nat (num_pairs cfg)]"
    by (subst eq) simp
  show "length (sc_targets sc) = nat (num_targets cfg)"
    by (subst eq) (simp add: targets_def)
  show "sc_targets sc ! k =
             (ring_radius cfg * cos (real k * (2 * pi / of_int (num_targets cfg))),
              ring_radius cfg * sin (real k * (2 * pi / of_int (num_targets cfg))))"
    if "k < nat (num_targets cfg)" for k
    using that by (subst eq) (simp add: targets_def)
  show ls: "length (sc_white_shuttles sc) = nat (num_pairs cfg) - 1"
    by (simp add: sh)
  show "sc_white_shuttles sc ! j = real (Suc j) * (2 * pi / of_int (num_targets cfg))"
    if "j < nat (num_pairs cfg) - 1" for j
  proof -
    from that np have "Suc j < nat (num_targets cfg)" by linarith
    with that show ?thesis by (simp add: sh)
  qed
  show "sc_white_speeds sc = replicate (nat (num_pairs cfg) - 1) (speed_uniform cfg)"
    by (subst eq) (simp add: white_speeds_def white_pair_indices_eq map_replicate_const)
  have off: "sc_phase_offsets sc =
      map (\<lambda>j. mod1 (base_phases (sc_white_shuttles sc) ! j + real j * gap cfg (sc_white_shuttles sc)))
        [0..<length (sc_white_shuttles sc)]"
    unfolding sh by (subst eq) simp
  show "length (sc_phase_offsets sc) = nat (num_pairs cfg) - 1"
    by (simp add: off ls)
  have g: "gap cfg (sc_white_shuttles sc) = phase_spread cfg * (1 / real (nat (num_pairs cfg) - 1))"
    using np by (simp add: gap_def nwd_def ls)
  show "sc_phase_offsets sc ! j =
             mod1 (base_phases (sc_white_shuttles sc) ! j
                   + real j * (phase_spread cfg * (1 / real (nat (num_pairs cfg) - 1))))"
    if "j < nat (num_pairs cfg) - 1" for j
    using that by (simp add: off ls g)
  show "sc_a sc = ring_radius cfg"
    by (subst eq) (simp add: ellipse_a_def)
  show "sc_b sc = ring_radius cfg * ellipse_b_scale cfg"
    by (subst eq) (simp add: ellipse_b_def ellipse_a_def)
qed

lemma setup_scene_ex: "4 \<le> num_targets cfg \<Longrightarrow> \<exists>sc. setup_scene cfg = Inr sc"
  by (simp add: setup_scene_eq)

lemma shuttle_positions_eq:
  assumes "length (sc_white_shuttles sc) \<le> length (sc_white_speeds sc)"
    and "length (sc_white_shuttles sc) \<le> length (sc_phase_offsets sc)"
  shows "shuttle_positions sc t =
     Inr (map (\<lambda>i. position_at t (sc_white_speeds sc ! i) (sc_phase_offsets sc ! i)
                     (sc_white_shuttles sc ! i) (sc_a sc) (sc_b sc))
            [0..<length (sc_white_shuttles sc)])"
proof -
  have "shuttle_positions sc t =
      Inr (map (\<lambda>(i, theta). position_at t (sc_white_speeds sc ! i) (sc_phase_offsets sc ! i)
                     theta (sc_a sc) (sc_b sc))
            (enumerate 0 (sc_white_shuttles sc)))"
    unfolding shuttle_positions_def
    using assms by (intro for_each_Inr) (auto simp: in_set_enumerate_eq getitem_nat)
  also have "map (\<lambda>(i, theta). position_at t (sc_white_speeds sc ! i) (sc_phase_offsets sc ! i)
                     theta (sc_a sc) (sc_b sc))
            (enumerate 0 (sc_white_shuttles sc)) =
      map (\<lambda>i. position_at t (sc_white_speeds sc ! i) (sc_phase_offsets sc ! i)
                     (sc_white_shuttles sc ! i) (sc_a sc) (sc_b sc))
            [0..<length (sc_white_shuttles sc)]"
    by (rule nth_equalityI) (simp_all add: nth_enumerate_eq)
  finally show ?thesis .
qed

lemma ellipse_position_0: "ellipse_position 0 theta a b = (a * cos theta, a * sin theta)"
  by (simp add: ellipse_position_def)

lemma ellipse_position_half: "ellipse_position (1 / 2) theta a b = (- a * cos theta, - a * sin theta)"
  by (simp add: ellipse_position_def)

lemma base_phases_nth:
  "j < length shuttles \<Longrightarrow> base_phases shuttles ! j = (if cos (shuttles ! j) < 0 then 0 else 1 / 2)"
  by (simp add: base_phases_def)

lemma mod1_small: "0 \<le> x \<Longrightarrow> x < 1 \<Longrightarrow> mod1 x = x"
  by (simp add: mod1_frac frac_eq)

lemma cos_ring_angle_neg:
  fixes k n :: nat
  assumes "0 < k" "2 * k < n"
  shows "cos (real k * (2 * pi / real n)) < 0 \<longleftrightarrow> n < 4 * k"
proof -
  define r where "r = real (2 * k) / real n"
  define x where "x = real k * (2 * pi / real n)"
  have n: "0 < real n" using assms by simp
  have x_eq: "x = pi * r" by (simp add: x_def r_def)
  have "r < 1" using assms n by (simp add: r_def del: of_nat_mult)
  from mult_strict_left_mono [OF this pi_gt_zero] have x_pi: "x < pi"
    by (simp add: x_eq)
  have x0: "0 < x" using assms n by (simp add: x_def)
  show ?thesis
  proof (cases "n < 4 * k")
    case True
    then have "real n < real (4 * k)" by (simp only: of_nat_less_iff)
    then have "1 / 2 < r" using n by (simp add: r_def field_simps)
    from mult_strict_left_mono [OF this pi_gt_zero] have "pi / 2 < x"
      by (simp add: x_eq)
    from cos_monotone_0_pi [OF _ this] x_pi have "cos x < cos (pi / 2)" by simp
    with True show ?thesis by (simp add: x_def)
  next
    case False
    then have "real (4 * k) \<le> real n" by (simp only: of_nat_le_iff not_less)
    then have "r \<le> 1 / 2" using n by (simp add: r_def field_simps)
    from mult_left_mono [OF this, of pi] have "x \<le> pi / 2"
      by (simp add: x_eq)
    with x0 have "0 \<le> cos x" by (intro cos_ge_zero) simp_all
    with False show ?thesis by (simp add: x_def)
  qed
qed

lemma setup_base_phase:
  assumes sc: "setup_scene cfg = Inr sc" and j: "j < nat (num_pairs cfg) - 1"
  shows "base_phases (sc_white_shuttles sc) ! j
           = (if num_targets cfg < 4 * int (Suc j) then 0 else 1 / 2)"
proof -
  note D = setup_scene_InrD [OF sc]
  have N: "of_int (num_targets cfg) = real (nat (num_targets cfg))"
    using D(1) by simp
  have "2 * Suc j < nat (num_targets cfg)"
    using j D(1) by (simp add: num_pairs_def)
  from cos_ring_angle_neg [OF _ this]
  have "cos (sc_white_shuttles sc ! j) < 0 \<longleftrightarrow> nat (num_targets cfg) < 4 * Suc j"
    unfolding D(5) [OF j] N by simp
  also have "\<dots> \<longleftrightarrow> num_targets cfg < 4 * int (Suc j)"
    using D(1) by linarith
  finally show ?thesis
    using j by (simp add: base_phases_nth D(4))
qed

lemma upt_0_9: "[0..<9] = [0, 1, 2, 3, 4, 5, 6, 7, 8 :: nat]"
  by code_simp

lemma default_offsets:
  assumes sc: "setup_scene default_config = Inr sc"
  shows "sc_phase_offsets sc = [1 / 2, 11 / 18, 13 / 18, 5 / 6, 17 / 18, 5 / 9, 2 / 3, 7 / 9, 8 / 9]"
proof -
  note D = setup_scene_InrD [OF sc]
  have M: "nat (num_pairs default_config) - Suc 0 = 9"
    by (simp add: num_pairs_def default_config_def)
  have "sc_phase_offsets sc =
      map (\<lambda>j. mod1 ((if (20::int) < 4 * int (Suc j) then 0 else 1 / 2) + real j * (1 / 9))) [0..<9]"
  proof (rule nth_equalityI)
    show "length (sc_phase_offsets sc) = length (map (\<lambda>j. mod1 ((if (20::int) < 4 * int (Suc j) then 0 else 1 / 2) + real j * (1 / 9))) [0..<9])"
      by (simp add: D(7) M)
    fix j assume "j < length (sc_phase_offsets sc)"
    then have j: "j < nat (num_pairs default_config) - 1" by (simp add: D(7))
    have "sc_phase_offsets sc ! j = mod1 ((if (20::int) < 4 * int (Suc j) then 0 else 1 / 2) + real j * (1 / 9))"
      unfolding D(8) [OF j] setup_base_phase [OF sc j]
      by (simp add: default_config_def num_pairs_def)
    with j M show "sc_phase_offsets sc ! j = map (\<lambda>j. mod1 ((if (20::int) < 4 * int (Suc j) then 0 else 1 / 2) + real j * (1 / 9))) [0..<9] ! j"
      by simp
  qed
  also have "\<dots> = [1 / 2, 11 / 18, 13 / 18, 5 / 6, 17 / 18, 5 / 9, 2 / 3, 7 / 9, 8 / 9]"
    unfolding upt_0_9 by (simp add: mod1_small)
  finally show ?thesis .
qed

lemma sort_default_offsets:
  "sort [1 / 2, 11 / 18, 13 / 18, 5 / 6, 17 / 18, 5 / 9, 2 / 3, 7 / 9, 8 / 9 :: real]
    = [1 / 2, 5 / 9, 11 / 18, 2 / 3, 13 / 18, 7 / 9, 5 / 6, 8 / 9, 17 / 18]"
  by simp

section \<open>Setup faults and the absence of validation\<close>

text \<open>
  C7 fails at two targets. With \<open>num_targets = 2\<close> there is one pair, reserved for the green
  dot, so \<open>white_shuttles\<close> and \<open>base_phases\<close> are empty. \<open>max(1, ...)\<close> makes \<open>nwd = 1\<close>:
  the division in \<open>gap\<close> is defined (\<open>gap = phase_spread\<close>), but the comprehension of line 119
  then runs over \<open>range(1)\<close> and reads \<open>base_phases[0]\<close>, which raises \<open>IndexError\<close>.
\<close>

theorem phase_offsets_fault_two_targets:
  "setup_scene (cfg \<lparr> num_targets := 2 \<rparr>) = Inl IndexError
   \<and> gap cfg [] = phase_spread cfg
   \<and> phase_offsets cfg [] = Inl IndexError"
  by (simp add: setup_scene_small phase_offsets_empty gap_def nwd_def)

text \<open>
  C6 as stated fails: an odd target count \<open>21\<close> is accepted and gives \<open>9\<close> shuttles
  (\<open>21 // 2 = 10\<close> pairs), and so are a phase spread \<open>1.5\<close> and a ring radius \<open>-250\<close>.
\<close>

theorem setup_accepts_bad_config:
  "\<not> isl (setup_scene (default_config \<lparr> num_targets := 21 \<rparr>))
   \<and> map_sum id (length \<circ> sc_white_shuttles) (setup_scene (default_config \<lparr> num_targets := 21 \<rparr>)) = Inr 9
   \<and> \<not> isl (setup_scene (default_config \<lparr> phase_spread := 3 / 2 \<rparr>))
   \<and> \<not> isl (setup_scene (default_config \<lparr> ring_radius := - 250 \<rparr>))"
  by (simp add: setup_scene_eq default_config_def num_pairs_def)

text \<open>
  C6, as the code has it. The setup code checks nothing: for every target count \<open>N \<ge> 4\<close>,
  odd or even, every phase spread, every ring radius and every ellipse scale, positive or
  not, it runs to its end without an exception and the frame loop starts. It builds \<open>N\<close>
  targets, \<open>N // 2 - 1\<close> shuttles and as many phase offsets, and the semi-major axis is
  the ring radius as given.
\<close>

theorem setup_scene_no_validation:
  "4 \<le> num_targets cfg \<Longrightarrow>
   (\<exists>sc. setup_scene cfg = Inr sc
      \<and> length (sc_targets sc) = nat (num_targets cfg)
      \<and> length (sc_white_shuttles sc) = nat (num_targets cfg div 2) - 1
      \<and> length (sc_phase_offsets sc) = nat (num_targets cfg div 2) - 1
      \<and> sc_a sc = ring_radius cfg)"
proof -
  assume N: "4 \<le> num_targets cfg"
  then obtain sc where sc: "setup_scene cfg = Inr sc"
    using setup_scene_ex by blast
  note D = setup_scene_InrD [OF sc]
  from sc D(2) D(4) D(7) D(9) show ?thesis
    by (auto simp: num_pairs_def)
qed

theorem setup_scene_no_validation_witness:
  "(4::int) \<le> 21 \<and>
   \<not> isl (setup_scene \<lparr> num_targets = 21, phase_spread = 3 / 2, ring_radius = - 250,
       ellipse_b_scale = - 1, speed_uniform = 15 / 100, overlap_thresh = 36 \<rparr>)"
  using setup_scene_no_validation [of "\<lparr> num_targets = 21, phase_spread = 3 / 2, ring_radius = - 250,
       ellipse_b_scale = - 1, speed_uniform = 15 / 100, overlap_thresh = 36 \<rparr>"]
  by auto

section \<open>Orbits and targets, in the exact reading\<close>

text \<open>
  C10 says that the orbit passes exactly through the two targets of its pair. Whether the
  doubles that \<open>ellipse_position\<close> returns at phase \<open>0.5\<close> are the doubles stored
  for the opposite target depends on the values that the library's sine and cosine return
  at the doubles nearest to \<open>pi\<close> and to the angles, which neither the script nor IEEE 754
  fixes; the claim is not stated on doubles. The lemma below is the identity in the
  exact reading only: for an even target count, with \<open>theta\<close> the orientation of shuttle
  \<open>j\<close> and \<open>i\<close> its pair index, the position at phase \<open>0\<close> is \<open>(R cos theta, R sin theta)\<close>,
  the position of target \<open>i\<close>, and at phase \<open>0.5\<close> it is \<open>(- R cos theta, - R sin theta)\<close>,
  the position of the opposite target \<open>i + num_pairs\<close>.
\<close>

lemma orbit_through_pair_targets:
  assumes ev: "even (num_targets cfg)"
    and sc: "setup_scene cfg = Inr sc"
    and j: "j < length (sc_white_shuttles sc)"
  shows "ellipse_position 0 (sc_white_shuttles sc ! j) (sc_a sc) (sc_b sc)
           = (ring_radius cfg * cos (sc_white_shuttles sc ! j),
              ring_radius cfg * sin (sc_white_shuttles sc ! j))
       \<and> ellipse_position 0 (sc_white_shuttles sc ! j) (sc_a sc) (sc_b sc)
           = sc_targets sc ! (white_pair_indices cfg ! j)
       \<and> ellipse_position (1 / 2) (sc_white_shuttles sc ! j) (sc_a sc) (sc_b sc)
           = (- ring_radius cfg * cos (sc_white_shuttles sc ! j),
              - ring_radius cfg * sin (sc_white_shuttles sc ! j))
       \<and> ellipse_position (1 / 2) (sc_white_shuttles sc ! j) (sc_a sc) (sc_b sc)
           = sc_targets sc ! (white_pair_indices cfg ! j + nat (num_pairs cfg))"
proof -
  note D = setup_scene_InrD [OF sc]
  from j have jM: "j < nat (num_pairs cfg) - 1" by (simp add: D(4))
  have N: "4 \<le> num_targets cfg" by (rule D(1))
  from ev obtain h where h: "num_targets cfg = 2 * h" by (elim evenE)
  have np: "num_pairs cfg = h" by (simp add: num_pairs_def h)
  have h2: "2 \<le> h" using N h by simp
  define th where "th = sc_white_shuttles sc ! j"
  have th: "th = real (Suc j) * (2 * pi / of_int (num_targets cfg))"
    unfolding th_def by (rule D(5) [OF jM])
  have i: "white_pair_indices cfg ! j = Suc j"
    by (rule white_pair_indices_nth [OF jM])
  have k1: "Suc j < nat (num_targets cfg)" using jM np h h2 by simp
  have k2: "Suc j + nat (num_pairs cfg) < nat (num_targets cfg)" using jM np h h2 by simp
  have "real (nat h) * (2 * pi / of_int (num_targets cfg)) = pi"
    using h2 by (simp add: h)
  then have ang: "real (Suc j + nat (num_pairs cfg)) * (2 * pi / of_int (num_targets cfg)) = th + pi"
    unfolding th np of_nat_add by (simp only: distrib_right)
  have p0: "ellipse_position 0 th (sc_a sc) (sc_b sc) = (ring_radius cfg * cos th, ring_radius cfg * sin th)"
    by (simp add: ellipse_position_0 D(9))
  have p1: "ellipse_position (1 / 2) th (sc_a sc) (sc_b sc)
      = (- ring_radius cfg * cos th, - ring_radius cfg * sin th)"
    by (simp add: ellipse_position_half D(9))
  have t0: "sc_targets sc ! (white_pair_indices cfg ! j) = (ring_radius cfg * cos th, ring_radius cfg * sin th)"
    unfolding i D(3) [OF k1] th ..
  have t1: "sc_targets sc ! (white_pair_indices cfg ! j + nat (num_pairs cfg))
      = (- ring_radius cfg * cos th, - ring_radius cfg * sin th)"
    unfolding i D(3) [OF k2] ang by simp
  show ?thesis
    unfolding th_def [symmetric] using p0 p1 t0 t1 by simp
qed

section \<open>Phase offsets at full spread\<close>

text \<open>
  C4 as stated fails for the script's own parameters (20 targets, \<open>phase_spread = 1\<close>,
  \<open>M = 9\<close>): the first five shuttles have base \<open>0.5\<close> and the last four base \<open>0\<close>, so the
  sorted offsets run from \<open>1/2\<close> to \<open>17/18\<close> in steps of \<open>1/18\<close>, not \<open>1/9\<close>, and cover
  half a cycle.
\<close>

theorem spread_one_offsets_not_evenly_spaced:
  "phase_spread default_config = 1
   \<and> map_sum id sc_phase_offsets (setup_scene default_config)
       = Inr [1 / 2, 11 / 18, 13 / 18, 5 / 6, 17 / 18, 5 / 9, 2 / 3, 7 / 9, 8 / 9]
   \<and> sort [1 / 2, 11 / 18, 13 / 18, 5 / 6, 17 / 18, 5 / 9, 2 / 3, 7 / 9, 8 / 9 :: real]
       = [1 / 2, 5 / 9, 11 / 18, 2 / 3, 13 / 18, 7 / 9, 5 / 6, 8 / 9, 17 / 18]
   \<and> \<not> (\<forall>k < 8.
          sort [1 / 2, 11 / 18, 13 / 18, 5 / 6, 17 / 18, 5 / 9, 2 / 3, 7 / 9, 8 / 9 :: real] ! Suc k
          - sort [1 / 2, 11 / 18, 13 / 18, 5 / 6, 17 / 18, 5 / 9, 2 / 3, 7 / 9, 8 / 9 :: real] ! k
          = 1 / 9)"
proof -
  obtain sc where sc: "setup_scene default_config = Inr sc"
    using setup_scene_ex [of default_config] by (auto simp: default_config_def)
  have a: "map_sum id sc_phase_offsets (setup_scene default_config)
       = Inr [1 / 2, 11 / 18, 13 / 18, 5 / 6, 17 / 18, 5 / 9, 2 / 3, 7 / 9, 8 / 9]"
    by (simp add: sc default_offsets [OF sc])
  have b: "\<not> (\<forall>k < 8.
          sort [1 / 2, 11 / 18, 13 / 18, 5 / 6, 17 / 18, 5 / 9, 2 / 3, 7 / 9, 8 / 9 :: real] ! Suc k
          - sort [1 / 2, 11 / 18, 13 / 18, 5 / 6, 17 / 18, 5 / 9, 2 / 3, 7 / 9, 8 / 9 :: real] ! k
          = 1 / 9)"
    unfolding sort_default_offsets
  proof
    assume "\<forall>k<8. [1 / 2, 5 / 9, 11 / 18, 2 / 3, 13 / 18, 7 / 9, 5 / 6, 8 / 9, 17 / 18 :: real] ! Suc k
        - [1 / 2, 5 / 9, 11 / 18, 2 / 3, 13 / 18, 7 / 9, 5 / 6, 8 / 9, 17 / 18] ! k = 1 / 9"
    then have "[1 / 2, 5 / 9, 11 / 18, 2 / 3, 13 / 18, 7 / 9, 5 / 6, 8 / 9, 17 / 18 :: real] ! Suc 0
        - [1 / 2, 5 / 9, 11 / 18, 2 / 3, 13 / 18, 7 / 9, 5 / 6, 8 / 9, 17 / 18] ! 0 = 1 / 9"
      by (rule allE [where x = 0]) simp
    then show False by simp
  qed
  from a b sort_default_offsets show ?thesis
    by (simp add: default_config_def)
qed

text \<open>
  C4, as the code has it. At \<open>phase_spread = 1\<close> with \<open>M\<close> shuttles, shuttle \<open>j\<close> has its own
  left-start base \<open>0\<close> or \<open>0.5\<close>, and relative to that base the offsets that line 119
  computes are evenly spaced over one full cycle up to rounding: \<open>(offset_j - base_j) mod 1\<close>
  differs from \<open>j / M\<close> by at most \<open>1e-15\<close> (shown for up to 500000 shuttles). The offsets
  themselves, sorted, need not be evenly spaced.
\<close>

theorem fl_spread_one_offsets_relative_to_base:
  assumes M: "0 < M" "M \<le> 500000" and j: "j < M" and bp: "bp = 0 \<or> bp = 1 / 2"
  shows "\<bar>mod1 (fl_phase_offset bp j (fl_gap 1 M) - bp) - real j / real M\<bar> \<le> 1 / 10 ^ 15"
proof (cases "j = 0")
  case True
  have "fl bp = bp" using bp by (elim disjE; hypsubst; simp add: fl_zero fl_half)
  moreover have "fl_mod1 bp = bp" using bp by (elim disjE; hypsubst; simp add: fl_mod1_nonneg)
  ultimately show ?thesis
    using True by (simp add: fl_phase_offset_def fl_zero mod1_def)
next
  case False
  define u :: real where "u = 1 / 2 ^ 53"
  define a :: real where "a = 1 / real M"
  define t :: real where "t = real j * a"
  define g1 where "g1 = fl (1 / real M)"
  define g where "g = fl (1 * g1)"
  define x where "x = real j * g"
  define p where "p = fl x"
  define q where "q = fl (bp + p)"
  have u: "0 < u" "u < 1 / 1000000000000000" by (simp_all add: u_def)
  have a: "1 / 1000000 \<le> a" "a \<le> 1" "0 < a"
    using M by (simp_all add: a_def field_simps)
  have j1: "1 \<le> real j" using False by simp
  have t_lo: "a \<le> t" using j1 a(3) by (simp add: t_def)
  have "real j \<le> real M - 1" using j by simp
  then have "real j * a \<le> (real M - 1) * a" using a(3) by (simp add: mult_right_mono)
  also have "(real M - 1) * a = 1 - a" using M by (simp add: a_def field_simps)
  finally have t_hi: "t \<le> 1 - a" by (simp add: t_def)
  have t01: "0 < t" "t \<le> 1" using t_lo t_hi a by linarith+
  \<comment> \<open>the gap\<close>
  have g1: "a * (1 - u) \<le> g1" "g1 \<le> a * (1 + u)"
    using fl_rel [of "1 / real M", OF _ u_def] a by (simp_all add: g1_def a_def)
  have g1_lo: "1 / 10000000 \<le> g1"
  proof -
    have "a * (1 / 2) \<le> a * (1 - u)" using a(3) u by (intro mult_left_mono) simp_all
    with g1(1) a(1) show ?thesis by linarith
  qed
  have g: "g1 * (1 - u) \<le> g" "g \<le> g1 * (1 + u)"
    using fl_rel [of "1 * g1", OF _ u_def] g1_lo by (simp_all add: g_def)
  have "a * (1 - u) * (1 - u) \<le> g1 * (1 - u)"
    using g1(1) u by (intro mult_right_mono) simp_all
  with g(1) have g_lo: "a * ((1 - u) * (1 - u)) \<le> g" by (simp add: mult.assoc)
  have "g1 * (1 + u) \<le> a * (1 + u) * (1 + u)"
    using g1(2) u by (intro mult_right_mono) simp_all
  with g(2) have g_hi: "g \<le> a * ((1 + u) * (1 + u))" by (simp add: mult.assoc)
  \<comment> \<open>the product with the index\<close>
  have "real j * (a * ((1 - u) * (1 - u))) \<le> real j * g"
    using g_lo by (intro mult_left_mono) simp_all
  then have x_lo: "t * ((1 - u) * (1 - u)) \<le> x" by (simp add: t_def x_def mult.assoc)
  have "real j * g \<le> real j * (a * ((1 + u) * (1 + u)))"
    using g_hi by (intro mult_left_mono) simp_all
  then have x_hi: "x \<le> t * ((1 + u) * (1 + u))" by (simp add: t_def x_def mult.assoc)
  have sq: "1 / 2 \<le> (1 - u) * (1 - u)" by (simp add: u_def)
  have "t * (1 / 2) \<le> t * ((1 - u) * (1 - u))" using sq t01 by (intro mult_left_mono) simp_all
  with x_lo t_lo a(1) have x_ge: "1 / 10000000 \<le> x" by linarith
  have p: "x * (1 - u) \<le> p" "p \<le> x * (1 + u)"
    using fl_rel [of x, OF _ u_def] x_ge by (simp_all add: p_def)
  have "t * ((1 - u) * (1 - u)) * (1 - u) \<le> x * (1 - u)"
    using x_lo u by (intro mult_right_mono) simp_all
  with p(1) have p_lo: "t * ((1 - u) * (1 - u) * (1 - u)) \<le> p" by (simp add: mult.assoc)
  have "x * (1 + u) \<le> t * ((1 + u) * (1 + u)) * (1 + u)"
    using x_hi u by (intro mult_right_mono) simp_all
  with p(2) have p_hi: "p \<le> t * ((1 + u) * (1 + u) * (1 + u))" by (simp add: mult.assoc)
  have c_lo: "1 - 4 * u \<le> (1 - u) * (1 - u) * (1 - u)" by (simp add: u_def)
  have c_hi: "(1 + u) * (1 + u) * (1 + u) \<le> 1 + 4 * u" by (simp add: u_def)
  have "t * (1 - 4 * u) \<le> t * ((1 - u) * (1 - u) * (1 - u))"
    using c_lo t01 by (intro mult_left_mono) simp_all
  with p_lo have "t * (1 - 4 * u) \<le> p" by linarith
  moreover have "t * (4 * u) \<le> 1 * (4 * u)" using t01 u by (intro mult_right_mono) simp_all
  ultimately have p1: "t - 4 * u \<le> p" by (simp add: algebra_simps)
  have "t * ((1 + u) * (1 + u) * (1 + u)) \<le> t * (1 + 4 * u)"
    using c_hi t01 by (intro mult_left_mono) simp_all
  with p_hi have "p \<le> t * (1 + 4 * u)" by linarith
  moreover have "t * (4 * u) \<le> 1 * (4 * u)" using t01 u by (intro mult_right_mono) simp_all
  ultimately have p2: "p \<le> t + 4 * u" by (simp add: algebra_simps)
  \<comment> \<open>the sum with the base\<close>
  have bp01: "0 \<le> bp" "bp \<le> 1 / 2" using bp by auto
  have s_ge: "1 / 10000000 \<le> bp + p"
  proof -
    have "1 / 1000000 - 4 * u \<le> p" using p1 t_lo a(1) by linarith
    moreover have "4 * u \<le> 1 / 10000000" by (simp add: u_def)
    ultimately show ?thesis using bp01 by linarith
  qed
  have q: "(bp + p) * (1 - u) \<le> q" "q \<le> (bp + p) * (1 + u)"
    using fl_rel [of "bp + p", OF _ u_def] s_ge by (simp_all add: q_def)
  have s_le: "bp + p \<le> 2" using p2 t01 bp01 u by linarith
  have s_pos: "0 \<le> bp + p" using s_ge by simp
  have "(bp + p) * u \<le> 2 * u" using s_le u by (intro mult_right_mono) simp_all
  with q have q1: "bp + p - 2 * u \<le> q" and q2: "q \<le> bp + p + 2 * u"
    by (simp_all add: algebra_simps)
  have d1: "t - 6 * u \<le> q - bp" and d2: "q - bp \<le> t + 6 * u"
    using p1 p2 q1 q2 by linarith+
  have u6: "6 * u < 1 / 1000000" by (simp add: u_def)
  have r0: "0 \<le> q - bp" using d1 t_lo a(1) u6 by linarith
  have r1: "q - bp < 1" using d2 t_hi a(1) u6 by linarith
  have q0: "0 \<le> q" using r0 bp01 by linarith
  have H: "fl_phase_offset bp j (fl_gap 1 M) = q - of_int \<lfloor>q\<rfloor>"
    using q0 by (simp add: fl_phase_offset_def fl_gap_def q_def p_def x_def g_def g1_def
        fl_mod1_nonneg)
  have "q - of_int \<lfloor>q\<rfloor> - bp = q - bp - of_int \<lfloor>q\<rfloor>" by simp
  then have "mod1 (fl_phase_offset bp j (fl_gap 1 M) - bp) = frac (q - bp - of_int \<lfloor>q\<rfloor>)"
    unfolding H mod1_frac by (rule arg_cong)
  also have "\<dots> = frac (q - bp)"
    by (simp add: frac_def)
  also have "\<dots> = q - bp" using r0 r1 by (simp add: frac_eq)
  finally have "mod1 (fl_phase_offset bp j (fl_gap 1 M) - bp) = q - bp" .
  moreover have "real j / real M = t" by (simp add: t_def a_def)
  ultimately have e: "mod1 (fl_phase_offset bp j (fl_gap 1 M) - bp) - real j / real M = q - bp - t"
    by simp
  have "\<bar>q - bp - t\<bar> \<le> 6 * u" using d1 d2 by linarith
  also have "6 * u \<le> 1 / 10 ^ 15" by (simp add: u_def)
  finally show ?thesis unfolding e .
qed

text \<open>Nine shuttles, index 1, base 0.5: the gap is the double \<open>0.1111111111111111\<close> and the offset is \<open>0.6111111111111112\<close>.\<close>

lemma fl_ninth: "fl (1 / 9) = 2001599834386887 / 2 ^ 54"
  using fl_value [of "- 4" "1 / 9" 8006399337547548] by simp

lemma fl_ninth_again: "fl (1 * (2001599834386887 / 2 ^ 54)) = 2001599834386887 / 2 ^ 54"
  using fl_value [of "- 4" "1 * (2001599834386887 / 2 ^ 54)" 8006399337547548] by simp

lemma fl_half_plus_ninth: "fl (1 / 2 + 2001599834386887 / 2 ^ 54) = 1376099886140985 / 2 ^ 51"
  using fl_value_tie [of "- 1" "1 / 2 + 2001599834386887 / 2 ^ 54" 5504399544563940] by simp

lemma fl_offset_one_of_nine:
  "fl_phase_offset (1 / 2) 1 (fl_gap 1 9) = 1376099886140985 / 2 ^ 51"
proof -
  have g: "fl_gap 1 9 = 2001599834386887 / 2 ^ 54"
    unfolding fl_gap_def of_nat_numeral fl_ninth fl_ninth_again ..
  have p: "fl (real 1 * (2001599834386887 / 2 ^ 54)) = 2001599834386887 / 2 ^ 54"
    using fl_ninth_again by simp
  have "fl_phase_offset (1 / 2) 1 (fl_gap 1 9)
      = fl_mod1 (fl (1 / 2 + fl (real 1 * (2001599834386887 / 2 ^ 54))))"
    unfolding fl_phase_offset_def g ..
  also have "\<dots> = fl_mod1 (1376099886140985 / 2 ^ 51)"
    unfolding p fl_half_plus_ninth ..
  also have "\<dots> = 1376099886140985 / 2 ^ 51"
    by (simp add: fl_mod1_nonneg)
  finally show ?thesis .
qed

theorem fl_spread_one_offsets_relative_to_base_witness:
  "(0::nat) < 9 \<and> (9::nat) \<le> 500000 \<and> (1::nat) < 9
   \<and> fl_phase_offset (1 / 2) 1 (fl_gap 1 9) = 1376099886140985 / 2 ^ 51
   \<and> \<bar>mod1 (fl_phase_offset (1 / 2) 1 (fl_gap 1 9) - 1 / 2) - real 1 / real 9\<bar> \<le> 1 / 10 ^ 15"
  using fl_spread_one_offsets_relative_to_base [of 9 1 "1 / 2"] fl_offset_one_of_nine
  by simp

section \<open>Left start with twenty targets, in the exact reading\<close>

text \<open>
  C5 says that with 20 targets and \<open>phase_spread = 0\<close> every shuttle is, at \<open>t = 0\<close>, at the
  target of its pair with negative x-coordinate. Which doubles the positions and the
  targets are, and the sign of a target's x-coordinate near the vertical axis, depend on
  the values that the library's sine and cosine return, which neither the script nor
  IEEE 754 fixes; the claim is not stated on doubles. The lemma below is the statement in
  the exact reading only: 10 pairs and 9 shuttles, and with a positive ring radius the
  position of shuttle \<open>j\<close> at \<open>t = 0\<close> is the target of its pair with negative
  x-coordinate, or the target reached at phase \<open>0.5\<close> when neither has one.
\<close>

lemma left_start_positions_twenty_targets:
  "num_targets cfg = 20 \<Longrightarrow> phase_spread cfg = 0 \<Longrightarrow> 0 < ring_radius cfg \<Longrightarrow>
   num_pairs cfg = 10
   \<and> (\<exists>sc dots. setup_scene cfg = Inr sc
         \<and> length (sc_white_shuttles sc) = 9
         \<and> shuttle_positions sc 0 = Inr dots
         \<and> length dots = 9
         \<and> (\<forall>j < 9.
              (fst (sc_targets sc ! (white_pair_indices cfg ! j)) < 0
                 \<longrightarrow> dots ! j = sc_targets sc ! (white_pair_indices cfg ! j))
              \<and> (fst (sc_targets sc ! (white_pair_indices cfg ! j + 10)) < 0
                 \<longrightarrow> dots ! j = sc_targets sc ! (white_pair_indices cfg ! j + 10))
              \<and> (\<not> fst (sc_targets sc ! (white_pair_indices cfg ! j)) < 0
                  \<and> \<not> fst (sc_targets sc ! (white_pair_indices cfg ! j + 10)) < 0
                 \<longrightarrow> dots ! j = sc_targets sc ! (white_pair_indices cfg ! j + 10)
                   \<and> dots ! j = ellipse_position (1 / 2) (sc_white_shuttles sc ! j)
                                   (sc_a sc) (sc_b sc))))"
proof -
  assume N: "num_targets cfg = 20" and sp: "phase_spread cfg = 0" and R: "0 < ring_radius cfg"
  have np: "num_pairs cfg = 10" by (simp add: num_pairs_def N)
  obtain sc where sc: "setup_scene cfg = Inr sc"
    using setup_scene_ex [of cfg] N by auto
  note D = setup_scene_InrD [OF sc]
  have M: "nat (num_pairs cfg) - 1 = 9" by (simp add: np)
  have len: "length (sc_white_shuttles sc) = 9" by (simp add: D(4) np)
  define dots where "dots = map (\<lambda>i. position_at 0 (sc_white_speeds sc ! i) (sc_phase_offsets sc ! i)
                     (sc_white_shuttles sc ! i) (sc_a sc) (sc_b sc)) [0..<length (sc_white_shuttles sc)]"
  have pos: "shuttle_positions sc 0 = Inr dots"
    unfolding dots_def by (rule shuttle_positions_eq) (simp_all add: D(4) D(6) D(7))
  have ld: "length dots = 9" by (simp add: dots_def len)
  have each: "(fst (sc_targets sc ! (white_pair_indices cfg ! j)) < 0
                 \<longrightarrow> dots ! j = sc_targets sc ! (white_pair_indices cfg ! j))
              \<and> (fst (sc_targets sc ! (white_pair_indices cfg ! j + 10)) < 0
                 \<longrightarrow> dots ! j = sc_targets sc ! (white_pair_indices cfg ! j + 10))
              \<and> (\<not> fst (sc_targets sc ! (white_pair_indices cfg ! j)) < 0
                  \<and> \<not> fst (sc_targets sc ! (white_pair_indices cfg ! j + 10)) < 0
                 \<longrightarrow> dots ! j = sc_targets sc ! (white_pair_indices cfg ! j + 10)
                   \<and> dots ! j = ellipse_position (1 / 2) (sc_white_shuttles sc ! j)
                                   (sc_a sc) (sc_b sc))"
    if j9: "j < 9" for j
  proof -
    from j9 have j: "j < nat (num_pairs cfg) - 1" by (simp add: np)
    define th where "th = sc_white_shuttles sc ! j"
    have th: "th = real (Suc j) * (2 * pi / of_int (num_targets cfg))"
      unfolding th_def by (rule D(5) [OF j])
    have i: "white_pair_indices cfg ! j = Suc j"
      by (rule white_pair_indices_nth [OF j])
    have k1: "Suc j < nat (num_targets cfg)" and k2: "Suc j + 10 < nat (num_targets cfg)"
      using j9 by (simp_all add: N)
    have "real (10::nat) * (2 * pi / of_int (num_targets cfg)) = pi"
      by (simp add: N)
    then have ang: "real (Suc j + 10) * (2 * pi / of_int (num_targets cfg)) = th + pi"
      unfolding th of_nat_add by (simp only: distrib_right)
    have p: "sc_targets sc ! Suc j = (ring_radius cfg * cos th, ring_radius cfg * sin th)"
      unfolding D(3) [OF k1] th ..
    have q: "sc_targets sc ! (Suc j + 10) = (- ring_radius cfg * cos th, - ring_radius cfg * sin th)"
      unfolding D(3) [OF k2] ang by simp
    have b: "base_phases (sc_white_shuttles sc) ! j = (if cos th < 0 then 0 else 1 / 2)"
      using j9 by (simp add: base_phases_nth len th_def)
    have off: "sc_phase_offsets sc ! j = (if cos th < 0 then 0 else 1 / 2)"
      unfolding D(8) [OF j] b by (simp add: sp mod1_small)
    have "dots ! j = position_at 0 (sc_white_speeds sc ! j) (sc_phase_offsets sc ! j) th (sc_a sc) (sc_b sc)"
      using j9 by (simp add: dots_def len th_def)
    also have "\<dots> = ellipse_position (if cos th < 0 then 0 else 1 / 2) th (sc_a sc) (sc_b sc)"
      by (simp add: position_at_def off mod1_small)
    finally have d: "dots ! j = (if cos th < 0 then (ring_radius cfg * cos th, ring_radius cfg * sin th)
                      else (- ring_radius cfg * cos th, - ring_radius cfg * sin th))"
      and d': "\<not> cos th < 0 \<Longrightarrow> dots ! j = ellipse_position (1 / 2) th (sc_a sc) (sc_b sc)"
      by (simp_all add: ellipse_position_0 ellipse_position_half D(9))
    have sgn: "ring_radius cfg * cos th < 0 \<longleftrightarrow> cos th < 0"
      "- (ring_radius cfg * cos th) < 0 \<longleftrightarrow> 0 < cos th"
      using R by (simp_all add: mult_less_0_iff zero_less_mult_iff)
    show ?thesis
      unfolding i p q th_def [symmetric] using d d' sgn by auto
  qed
  from np sc len pos ld each show ?thesis by blast
qed

end
